theory Spec2Isabelle
  imports Complex_Main "HOL-Library.Sublist"
begin

section \<open>Python strings as the orchestration loop uses them\<close>

text \<open>
  The file \<^verbatim>\<open>src/backend/calling_mcps.py\<close> is embedded. A Python \<^verbatim>\<open>str\<close> is a
  \<^typ>\<open>string\<close> (one \<^typ>\<open>char\<close> per code point below 256; the two markers and all literals
  of the source are ASCII).
\<close>

text \<open>\<^verbatim>\<open>sub in s\<close>: some suffix of \<open>s\<close> starts with \<open>sub\<close>.\<close>

fun py_in :: "string \<Rightarrow> string \<Rightarrow> bool" where
  "py_in sub [] = (sub = [])"
| "py_in sub (c # cs) = (prefix sub (c # cs) \<or> py_in sub cs)"

text \<open>\<^verbatim>\<open>s.find(sub)\<close>: the lowest index where \<open>sub\<close> occurs, \<open>-1\<close> when it does not.\<close>

fun py_find :: "string \<Rightarrow> string \<Rightarrow> int" where
  "py_find [] sub = (if sub = [] then 0 else - 1)"
| "py_find (c # cs) sub =
     (if prefix sub (c # cs) then 0
      else (let r = py_find cs sub in if r < 0 then - 1 else r + 1))"

text \<open>
  The slices \<^verbatim>\<open>s[:i]\<close> and \<^verbatim>\<open>s[i:]\<close>: a negative index counts from the end, and an
  index beyond either end is clamped.
\<close>

definition slice_to :: "string \<Rightarrow> int \<Rightarrow> string" where
  "slice_to s i = (if i < 0 then take (nat (int (length s) + i)) s else take (nat i) s)"

definition slice_from :: "string \<Rightarrow> int \<Rightarrow> string" where
  "slice_from s i = (if i < 0 then drop (nat (int (length s) + i)) s else drop (nat i) s)"

definition think_open :: string where
  "think_open = ''<think>''"

definition think_close :: string where
  "think_close = ''</think>''"

text \<open>
  The thinking-tag stripper, written twice in the source with the same body
  (lines 49-52 on the displayed response, lines 144-147 on the planning text):
  \<^verbatim>\<open>
  if text and '<think>' in text and '</think>' in text:
      start = text.find('<think>')
      end = text.find('</think>') + len('</think>')
      text = text[:start] + text[end:]
  \<close>
\<close>

definition strip_thinking :: "string \<Rightarrow> string" where
  "strip_thinking text =
     (if text \<noteq> [] \<and> py_in think_open text \<and> py_in think_close text then
        (let start = py_find text think_open;
             end' = py_find text think_close + int (length think_close)
         in slice_to text start @ slice_from text end')
      else text)"


text \<open>
  \<^verbatim>\<open>s.strip()\<close> removes leading and trailing whitespace; below code point 256 Python's
  whitespace is tab to carriage return, the four separators 28-31, the space, NEL and the
  no-break space.
\<close>

definition is_space :: "char \<Rightarrow> bool" where
  "is_space c = (of_char c \<in> {9, 10, 11, 12, 13, 28, 29, 30, 31, 32, 133, 160 :: nat})"

definition py_strip :: "string \<Rightarrow> string" where
  "py_strip s = rev (dropWhile is_space (rev (dropWhile is_space s)))"



text \<open>\<^verbatim>\<open>sep.join(xs)\<close>\<close>

fun str_join :: "string \<Rightarrow> string list \<Rightarrow> string" where
  "str_join sep [] = []"
| "str_join sep [x] = x"
| "str_join sep (x # y # ys) = x @ sep @ str_join sep (y # ys)"

section \<open>Values, exceptions and the external collaborators\<close>

text \<open>
  The handlers of the source tell two classes of exception apart:
  \<^verbatim>\<open>json.JSONDecodeError\<close> and every other \<^verbatim>\<open>Exception\<close>. Each carries the text that
  \<^verbatim>\<open>str(e)\<close> gives.
\<close>

datatype py_exn = JSONDecodeError string | Exception string

fun str_exn :: "py_exn \<Rightarrow> string" where
  "str_exn (JSONDecodeError m) = m"
| "str_exn (Exception m) = m"

text \<open>
  What \<^verbatim>\<open>json.loads\<close> returns: \<^verbatim>\<open>None\<close>, a bool, an int, a float, a str, a list or a
  dict with string keys (an association list with distinct keys). The floats NaN and
  infinity, which \<^verbatim>\<open>json.loads\<close> accepts, are left out; they are truthy and have no
  \<^verbatim>\<open>len\<close>, like every float but zero.
\<close>

datatype json =
    JNull
  | JBool bool
  | JInt int
  | JFloat real
  | JStr string
  | JArr "json list"
  | JObj "(string \<times> json) list"

text \<open>Truth value testing, as \<^verbatim>\<open>if tool_requests\<close> does it.\<close>

fun truthy :: "json \<Rightarrow> bool" where
  "truthy JNull = False"
| "truthy (JBool b) = b"
| "truthy (JInt n) = (n \<noteq> 0)"
| "truthy (JFloat r) = (r \<noteq> 0)"
| "truthy (JStr s) = (s \<noteq> [])"
| "truthy (JArr xs) = (xs \<noteq> [])"
| "truthy (JObj kvs) = (kvs \<noteq> [])"

fun type_name :: "json \<Rightarrow> string" where
  "type_name JNull = ''NoneType''"
| "type_name (JBool b) = ''bool''"
| "type_name (JInt n) = ''int''"
| "type_name (JFloat r) = ''float''"
| "type_name (JStr s) = ''str''"
| "type_name (JArr xs) = ''list''"
| "type_name (JObj kvs) = ''dict''"

text \<open>\<^verbatim>\<open>len(v)\<close>: a TypeError on a value that has no length.\<close>

fun py_len :: "json \<Rightarrow> py_exn + nat" where
  "py_len (JStr s) = Inr (length s)"
| "py_len (JArr xs) = Inr (length xs)"
| "py_len (JObj kvs) = Inr (length kvs)"
| "py_len v = Inl (Exception (''object of type '' @ [CHR 0x27] @ type_name v @ [CHR 0x27] @ '' has no len()''))"

text \<open>
  \<^verbatim>\<open>v[0]\<close>: the first element of a list, the first character of a str, a KeyError on a
  dict (the keys of a decoded object are strings, never the int 0, and \<^verbatim>\<open>str(KeyError(0))\<close>
  is \<^verbatim>\<open>0\<close>), an IndexError on an empty sequence, a TypeError elsewhere.
\<close>

fun subscript0 :: "json \<Rightarrow> py_exn + json" where
  "subscript0 (JArr (x # xs)) = Inr x"
| "subscript0 (JArr []) = Inl (Exception ''list index out of range'')"
| "subscript0 (JStr (c # cs)) = Inr (JStr [c])"
| "subscript0 (JStr []) = Inl (Exception ''string index out of range'')"
| "subscript0 (JObj kvs) = Inl (Exception ''0'')"
| "subscript0 v = Inl (Exception ([CHR 0x27] @ type_name v @ [CHR 0x27] @ '' object is not subscriptable''))"

text \<open>\<^verbatim>\<open>v.get(key, default)\<close>: only a dict has the method; elsewhere an AttributeError.\<close>

fun py_get :: "json \<Rightarrow> string \<Rightarrow> json \<Rightarrow> py_exn + json" where
  "py_get (JObj kvs) key dflt = Inr (case map_of kvs key of None \<Rightarrow> dflt | Some v \<Rightarrow> v)"
| "py_get v key dflt =
     Inl (Exception ([CHR 0x27] @ type_name v @ [CHR 0x27] @ '' object has no attribute '' @ [CHR 0x27] @ ''get'' @ [CHR 0x27]))"

text \<open>
  One entry of the execution trace (the dict appended to \<^verbatim>\<open>executed_tools\<close>), one entry of
  \<^verbatim>\<open>conversation_history\<close>, and one content part of a tool result, of which the source
  reads the attribute \<^verbatim>\<open>text\<close> (here \<open>text_of\<close>).
\<close>

record executed_tool =
  tool_name :: json
  parameters :: json
  result :: string

record message =
  role :: string
  content :: string

datatype content_part = TextContent (text_of: string)

text \<open>
  The language model and the tool registry are outside the repository. A call to either
  may answer differently each time, so each takes the state \<open>'w\<close> of the outside world and
  returns the next one; a call either raises or returns. The three prompts of the source are
  texts computed from the values that the constructors of \<open>prompt\<close> carry (the planning
  prompt from the tool descriptions, the query and the names and results of the trace), and
  the model is free to answer them in any way. \<^verbatim>\<open>json.loads\<close> is a pure function of its
  argument.
\<close>

datatype prompt =
    PlanningPrompt string string "executed_tool list"
  | ComprehensivePrompt string "executed_tool list"
  | DirectPrompt string

record 'w env =
  ollama_chat :: "'w \<Rightarrow> prompt \<Rightarrow> (py_exn + string) \<times> 'w"
  call_tool :: "'w \<Rightarrow> json \<Rightarrow> json \<Rightarrow> (py_exn + content_part list) \<times> 'w"
  json_loads :: "string \<Rightarrow> py_exn + json"

section \<open>The response synthesizer and the direct response\<close>

text \<open>
  \<^verbatim>\<open>tool_result[0].text if tool_result else "No result"\<close> (line 169).
\<close>

definition tool_output :: "content_part list \<Rightarrow> string" where
  "tool_output tool_result =
     (case tool_result of [] \<Rightarrow> ''No result'' | part # parts \<Rightarrow> text_of part)"

text \<open>
  \<^verbatim>\<open>_generate_comprehensive_response\<close> (lines 255-284): the reply of the model, stripped of
  whitespace; when the call raises, the fallback of line 284.
\<close>

definition generate_comprehensive_response ::
  "'w env \<Rightarrow> 'w \<Rightarrow> string \<Rightarrow> executed_tool list \<Rightarrow> string \<times> 'w" where
  "generate_comprehensive_response env w user_query tool_results =
     (case ollama_chat env w (ComprehensivePrompt user_query tool_results) of
        (Inr reply, w') \<Rightarrow> (py_strip reply, w')
      | (Inl e, w') \<Rightarrow>
          (''Based on the collected information: '' @ str_join '' '' (map result tool_results), w'))"

text \<open>
  \<^verbatim>\<open>_generate_direct_response\<close> (lines 236-253): the reply is appended to the history; when
  the call raises, an error text is returned and the history is left as it is.
\<close>

definition generate_direct_response ::
  "'w env \<Rightarrow> 'w \<Rightarrow> message list \<Rightarrow> string \<Rightarrow> string \<times> message list \<times> 'w" where
  "generate_direct_response env w history user_query =
     (case ollama_chat env w (DirectPrompt user_query) of
        (Inr reply, w') \<Rightarrow>
          (let direct_response = py_strip reply
           in (direct_response,
               history @ [\<lparr>role = ''assistant'', content = direct_response\<rparr>], w'))
      | (Inl e, w') \<Rightarrow> (''Error generating response: '' @ str_exn e, history, w'))"

section \<open>The executor loop\<close>

text \<open>
  What a call of \<^verbatim>\<open>_execute_tools_sequentially\<close> leaves behind: the string it returns or
  the exception it raises, the list \<^verbatim>\<open>executed_tools\<close> (one object, mutated in place and
  shared by all the recursive calls), the conversation history and the outside world.
\<close>

type_synonym 'w outcome = "(py_exn + string) \<times> executed_tool list \<times> message list \<times> 'w"

text \<open>
  The block that the source writes three times (lines 201-208, 212-217 and 221-226):
  synthesis from a non-empty trace, with the answer appended to the history, and the
  direct response otherwise.
\<close>

definition final_response ::
  "'w env \<Rightarrow> string \<Rightarrow> executed_tool list \<Rightarrow> message list \<Rightarrow> 'w \<Rightarrow> 'w outcome" where
  "final_response env current_query executed_tools history w =
     (if executed_tools \<noteq> [] then
        (case generate_comprehensive_response env w current_query executed_tools of
           (final, w') \<Rightarrow>
             (Inr final, executed_tools,
              history @ [\<lparr>role = ''assistant'', content = final\<rparr>], w'))
      else
        (case generate_direct_response env w history current_query of
           (direct, history', w') \<Rightarrow> (Inr direct, executed_tools, history', w')))"

text \<open>The outermost handler, \<^verbatim>\<open>except Exception as e\<close> (lines 228-234).\<close>

definition on_exception ::
  "'w env \<Rightarrow> string \<Rightarrow> executed_tool list \<Rightarrow> message list \<Rightarrow> 'w \<Rightarrow> py_exn \<Rightarrow> 'w outcome" where
  "on_exception env current_query executed_tools history w e =
     (if executed_tools \<noteq> [] then
        (case generate_comprehensive_response env w current_query executed_tools of
           (final, w') \<Rightarrow>
             (Inr final, executed_tools,
              history @ [\<lparr>role = ''assistant'', content = final\<rparr>], w'))
      else (Inr (''Error in query processing: '' @ str_exn e), executed_tools, history, w))"

text \<open>
  An exception raised inside the inner \<^verbatim>\<open>try\<close> (lines 151-217) and outside the tool's own
  \<^verbatim>\<open>try\<close>: \<^verbatim>\<open>except json.JSONDecodeError\<close> (line 219) takes a decode error, the outermost
  handler every other exception.
\<close>

definition on_parse_exception ::
  "'w env \<Rightarrow> string \<Rightarrow> executed_tool list \<Rightarrow> message list \<Rightarrow> 'w \<Rightarrow> py_exn \<Rightarrow> 'w outcome" where
  "on_parse_exception env current_query executed_tools history w e =
     (case e of
        JSONDecodeError m \<Rightarrow> final_response env current_query executed_tools history w
      | Exception m \<Rightarrow> on_exception env current_query executed_tools history w e)"

text \<open>
  Lines 159-162: whether the decoded reply asks for a tool, and which.
  \<^verbatim>\<open>
  if tool_requests and len(tool_requests) > 0:
      tool_request = tool_requests[0]
      tool_name = tool_request.get('tool')
      parameters = tool_request.get('params', {})
  \<close>
  \<open>Inr None\<close> is the case that the condition is false.
\<close>

definition first_tool_request :: "json \<Rightarrow> py_exn + (json \<times> json) option" where
  "first_tool_request tool_requests =
     (if \<not> truthy tool_requests then Inr None
      else
        (case py_len tool_requests of
           Inl e \<Rightarrow> Inl e
         | Inr n \<Rightarrow>
             if \<not> 0 < n then Inr None
             else
               (case subscript0 tool_requests of
                  Inl e \<Rightarrow> Inl e
                | Inr tool_request \<Rightarrow>
                    (case py_get tool_request ''tool'' JNull of
                       Inl e \<Rightarrow> Inl e
                     | Inr name \<Rightarrow>
                         (case py_get tool_request ''params'' (JObj []) of
                            Inl e \<Rightarrow> Inl e
                          | Inr params \<Rightarrow> Inr (Some (name, params)))))))"

text \<open>
  What the caller does with the outcome of a recursive call made from the handler of the
  tool's \<^verbatim>\<open>try\<close> (line 197): a string is returned as it is, an exception is handled as
  one raised inside the inner \<^verbatim>\<open>try\<close>.
\<close>

definition after_recursive_call :: "'w env \<Rightarrow> string \<Rightarrow> 'w outcome \<Rightarrow> 'w outcome" where
  "after_recursive_call env current_query out =
     (case out of
        (Inr final, executed_tools, history, w) \<Rightarrow> (Inr final, executed_tools, history, w)
      | (Inl e, executed_tools, history, w) \<Rightarrow>
          on_parse_exception env current_query executed_tools history w e)"

text \<open>
  \<^verbatim>\<open>_execute_tools_sequentially\<close> (lines 90-234). The source recurses once per executed tool
  and has no bound on the depth, so the function is partial: \<open>None\<close> is a turn that never
  returns. The \<^verbatim>\<open>print\<close> calls are left out, and so are the recursion limit of the
  interpreter and the exceptions that \<^verbatim>\<open>except Exception\<close> does not catch (a keyboard
  interrupt). The recursive call of line 186 stands inside the tool's \<^verbatim>\<open>try\<close>: were it
  to raise, the handler of line 188 would append an error entry to the list as the callee
  left it and recurse once more (line 197).
\<close>

partial_function (option) execute_tools_sequentially ::
  "'w env \<Rightarrow> string \<Rightarrow> string \<Rightarrow> executed_tool list \<Rightarrow> message list \<Rightarrow> 'w \<Rightarrow> 'w outcome option"
where
  "execute_tools_sequentially env current_query tool_descriptions executed_tools history w =
     (case ollama_chat env w (PlanningPrompt tool_descriptions current_query executed_tools) of
        (Inl e, w1) \<Rightarrow> Some (on_exception env current_query executed_tools history w1 e)
      | (Inr reply, w1) \<Rightarrow>
          (let planning_text = strip_thinking (py_strip reply) in
           if planning_text \<noteq> [] then
             (case json_loads env planning_text of
                Inl e \<Rightarrow> Some (on_parse_exception env current_query executed_tools history w1 e)
              | Inr tool_requests \<Rightarrow>
                  (case first_tool_request tool_requests of
                     Inl e \<Rightarrow>
                       Some (on_parse_exception env current_query executed_tools history w1 e)
                   | Inr None \<Rightarrow>
                       Some (final_response env current_query executed_tools history w1)
                   | Inr (Some (name, params)) \<Rightarrow>
                       (case call_tool env w1 name params of
                          (Inr tool_result, w2) \<Rightarrow>
                            Option.bind
                              (execute_tools_sequentially env current_query tool_descriptions
                                 (executed_tools @
                                    [\<lparr>tool_name = name, parameters = params,
                                      result = tool_output tool_result\<rparr>])
                                 history w2)
                              (\<lambda>(r, executed_tools', history', w3).
                                 case r of
                                   Inr final \<Rightarrow> Some (Inr final, executed_tools', history', w3)
                                 | Inl e \<Rightarrow>
                                     Option.bind
                                       (execute_tools_sequentially env current_query
                                          tool_descriptions
                                          (executed_tools' @
                                             [\<lparr>tool_name = name, parameters = params,
                                               result = ''Error: '' @ str_exn e\<rparr>])
                                          history' w3)
                                       (\<lambda>out. Some (after_recursive_call env current_query out)))
                        | (Inl e, w2) \<Rightarrow>
                            Option.bind
                              (execute_tools_sequentially env current_query tool_descriptions
                                 (executed_tools @
                                    [\<lparr>tool_name = name, parameters = params,
                                      result = ''Error: '' @ str_exn e\<rparr>])
                                 history w2)
                              (\<lambda>out. Some (after_recursive_call env current_query out)))))
           else Some (final_response env current_query executed_tools history w1)))"



section \<open>Rounds of a turn\<close>

text \<open>
  The definitions of this section name what the claims speak about; the loop above does
  not use them. \<open>planned_array\<close> is the array that the planning reply of a round decodes
  to (lines 135-156), when the call returns, the stripped text is not empty and
  \<^verbatim>\<open>json.loads\<close> returns a list.
\<close>

definition planned_array ::
  "'w env \<Rightarrow> string \<Rightarrow> string \<Rightarrow> executed_tool list \<Rightarrow> 'w \<Rightarrow> (json list \<times> 'w) option" where
  "planned_array env current_query tool_descriptions executed_tools w =
     (case ollama_chat env w (PlanningPrompt tool_descriptions current_query executed_tools) of
        (Inl e, w1) \<Rightarrow> None
      | (Inr reply, w1) \<Rightarrow>
          (let planning_text = strip_thinking (py_strip reply) in
           if planning_text \<noteq> [] then
             (case json_loads env planning_text of
                Inr (JArr arr) \<Rightarrow> Some (arr, w1)
              | _ \<Rightarrow> None)
           else None))"

text \<open>
  The tool request that a decoded array makes: the name and the parameters that its first
  element gives, when that element is an object. No other element is read.
\<close>

definition requested_tool :: "json list \<Rightarrow> (json \<times> json) option" where
  "requested_tool arr =
     (case arr of
        JObj kvs # rest \<Rightarrow>
          Some (case map_of kvs ''tool'' of None \<Rightarrow> JNull | Some v \<Rightarrow> v,
                case map_of kvs ''params'' of None \<Rightarrow> JObj [] | Some v \<Rightarrow> v)
      | _ \<Rightarrow> None)"

definition requests_tool ::
  "'w env \<Rightarrow> string \<Rightarrow> string \<Rightarrow> executed_tool list \<Rightarrow> 'w \<Rightarrow> bool" where
  "requests_tool env current_query tool_descriptions executed_tools w =
     (case planned_array env current_query tool_descriptions executed_tools w of
        None \<Rightarrow> False
      | Some (arr, w1) \<Rightarrow> requested_tool arr \<noteq> None)"

text \<open>
  The trace entry of a request whose dispatch had the given outcome (lines 169-176 for a
  result, lines 190-194 for an exception).
\<close>

definition trace_entry :: "json \<times> json \<Rightarrow> py_exn + content_part list \<Rightarrow> executed_tool" where
  "trace_entry request outcome =
     \<lparr>tool_name = fst request, parameters = snd request,
      result = (case outcome of
                  Inr tool_result \<Rightarrow> tool_output tool_result
                | Inl e \<Rightarrow> ''Error: '' @ str_exn e)\<rparr>"

text \<open>
  A run of tool rounds against a script: round after round, the planner's reply decodes
  to the scripted array, which makes a request, and the registry answers the dispatch
  with the scripted outcome. The value is the trace and the world after the last scripted
  round, and \<open>None\<close> when the collaborators do not follow the script.
\<close>

fun tool_rounds ::
  "'w env \<Rightarrow> string \<Rightarrow> string \<Rightarrow> (json list \<times> (py_exn + content_part list)) list \<Rightarrow>
   executed_tool list \<Rightarrow> 'w \<Rightarrow> (executed_tool list \<times> 'w) option" where
  "tool_rounds env current_query tool_descriptions [] executed_tools w = Some (executed_tools, w)"
| "tool_rounds env current_query tool_descriptions ((arr, outcome) # script) executed_tools w =
     (case planned_array env current_query tool_descriptions executed_tools w of
        None \<Rightarrow> None
      | Some (arr', w1) \<Rightarrow>
          (case requested_tool arr' of
             None \<Rightarrow> None
           | Some (name, params) \<Rightarrow>
               (case call_tool env w1 name params of
                  (outcome', w2) \<Rightarrow>
                    if arr' = arr \<and> outcome' = outcome
                    then tool_rounds env current_query tool_descriptions script
                           (executed_tools @ [trace_entry (name, params) outcome]) w2
                    else None)))"

section \<open>The interactive loop\<close>



section \<open>Mocked collaborators\<close>

text \<open>
  A decoder for the replies that the mocked planners below give; every other text is not
  JSON to it.
\<close>

definition demo_loads :: "string \<Rightarrow> py_exn + json" where
  \<open>demo_loads s =
     (case map_of
        [(''[]'', JArr []),
         (''[{"tool": "get_ticker_from_name", "params": {"name": "Apple Inc"}}]'',
          JArr [JObj [(''tool'', JStr ''get_ticker_from_name''),
                      (''params'', JObj [(''name'', JStr ''Apple Inc'')])]]),
         (''[{"tool": "get_stock_price", "params": {"ticker": "AAPL"}}, {"tool": "get_stock_news"}]'',
          JArr [JObj [(''tool'', JStr ''get_stock_price''),
                      (''params'', JObj [(''ticker'', JStr ''AAPL'')])],
                JObj [(''tool'', JStr ''get_stock_news'')]]),
         (''[{"tool": "get_stock_price"}]'', JArr [JObj [(''tool'', JStr ''get_stock_price'')]]),
         (''[{"params": {"ticker": "AAPL"}}]'',
          JArr [JObj [(''params'', JObj [(''ticker'', JStr ''AAPL'')])]]),
         (''{"done": true}'', JObj [(''done'', JBool True)])] s of
        Some v \<Rightarrow> Inr v
      | None \<Rightarrow> Inl (JSONDecodeError ''Expecting value: line 1 column 1 (char 0)''))\<close>

text \<open>
  The world of a scripted mock is the number of tool calls made so far. The planner gives
  the scripted reply of that round and \<^verbatim>\<open>[]\<close> after the script; the registry gives the
  scripted outcome of that call; synthesis and direct response both give \<open>answer\<close>.
\<close>

definition scripted_env ::
  "(py_exn + string) list \<Rightarrow> (py_exn + content_part list) list \<Rightarrow> py_exn + string \<Rightarrow> nat env" where
  "scripted_env plans outcomes answer =
     \<lparr>ollama_chat =
        (\<lambda>w p. case p of
           PlanningPrompt tool_descriptions current_query executed_tools \<Rightarrow>
             (if w < length plans then plans ! w else Inr ''[]'', w)
         | ComprehensivePrompt user_query tool_results \<Rightarrow> (answer, w)
         | DirectPrompt user_query \<Rightarrow> (answer, w)),
      call_tool = (\<lambda>w name params. (if w < length outcomes then outcomes ! w else Inr [], Suc w)),
      json_loads = demo_loads\<rparr>"



text \<open>
  The scenario of the specification: the planner first asks for the ticker of Apple Inc,
  then for the price of AAPL (in an array that holds a second request as well), then
  returns \<^verbatim>\<open>[]\<close>.
\<close>

definition apple_plans :: "(py_exn + string) list" where
  \<open>apple_plans =
     [Inr ''[{"tool": "get_ticker_from_name", "params": {"name": "Apple Inc"}}]'',
      Inr ''[{"tool": "get_stock_price", "params": {"ticker": "AAPL"}}, {"tool": "get_stock_news"}]'']\<close>

definition ticker_request :: "json list" where
  "ticker_request =
     [JObj [(''tool'', JStr ''get_ticker_from_name''),
            (''params'', JObj [(''name'', JStr ''Apple Inc'')])]]"

definition price_request :: "json list" where
  "price_request =
     [JObj [(''tool'', JStr ''get_stock_price''),
            (''params'', JObj [(''ticker'', JStr ''AAPL'')])],
      JObj [(''tool'', JStr ''get_stock_news'')]]"

definition apple_query :: string where
  "apple_query = ''What is the stock price of Apple Inc''"


text \<open>
  Replies that make no request: a JSON object where an array is asked for, and plain
  prose.
\<close>

definition object_plans :: "(py_exn + string) list" where
  \<open>object_plans = [Inr ''{"done": true}'']\<close>

definition prose_plans :: "(py_exn + string) list" where
  "prose_plans = [Inr ''I have all the information I need.'']"

section \<open>Facts about the stripper\<close>

lemma py_in_iff_sublist: "py_in sub s \<longleftrightarrow> sublist sub s"
  by (induction s) (simp_all add: sublist_Cons_right)

lemma py_find_absent: "\<not> py_in sub s \<Longrightarrow> py_find s sub = - 1"
  by (induction s) (auto simp: Let_def)

lemma py_find_bounds:
  "py_in sub s \<Longrightarrow> 0 \<le> py_find s sub \<and> py_find s sub + int (length sub) \<le> int (length s)"
proof (induction s)
  case Nil
  then show ?case by simp
next
  case (Cons c cs)
  show ?case
  proof (cases "prefix sub (c # cs)")
    case True
    then have "length sub \<le> length (c # cs)" by (rule prefix_length_le)
    with True show ?thesis by simp
  next
    case False
    with Cons.prems have "py_in sub cs" by simp
    from Cons.IH [OF this] False show ?thesis by (simp add: Let_def)
  qed
qed

lemma py_find_occurrence:
  "py_in sub s \<Longrightarrow> prefix sub (drop (nat (py_find s sub)) s)"
proof (induction s)
  case Nil
  then show ?case by simp
next
  case (Cons c cs)
  show ?case
  proof (cases "prefix sub (c # cs)")
    case True
    then show ?thesis by simp
  next
    case False
    with Cons.prems have in_cs: "py_in sub cs" by simp
    from py_find_bounds [OF in_cs] have "0 \<le> py_find cs sub" by simp
    then have "nat (py_find cs sub + 1) = Suc (nat (py_find cs sub))" by simp
    with Cons.IH [OF in_cs] False show ?thesis by (simp add: Let_def)
  qed
qed

lemma strip_thinking_unchanged:
  "\<not> (py_in think_open s \<and> py_in think_close s) \<Longrightarrow> strip_thinking s = s"
  by (auto simp: strip_thinking_def)

lemma strip_thinking_both:
  assumes "py_in think_open s" "py_in think_close s"
  shows "strip_thinking s =
           take (nat (py_find s think_open)) s @ drop (nat (py_find s think_close) + 8) s"
proof -
  from assms have ne: "s \<noteq> []" by (auto simp: think_open_def)
  from py_find_bounds [OF assms(1)] have o: "0 \<le> py_find s think_open" by simp
  from py_find_bounds [OF assms(2)] have c: "0 \<le> py_find s think_close" by simp
  have "nat (py_find s think_close + 8) = nat (py_find s think_close) + 8" using c by simp
  with assms ne o c show ?thesis
    by (simp add: strip_thinking_def Let_def slice_to_def slice_from_def think_close_def)
qed

lemma strip_thinking_removes_span:
  assumes "s = pre @ think_open @ mid @ think_close @ post"
    and "py_find s think_open = int (length pre)"
    and "py_find s think_close = int (length (pre @ think_open @ mid))"
  shows "strip_thinking s = pre @ post"
proof -
  have o: "py_in think_open s"
    unfolding py_in_iff_sublist sublist_def assms(1) by blast
  have "s = (pre @ think_open @ mid) @ think_close @ post"
    by (simp add: assms(1))
  then have c: "py_in think_close s"
    unfolding py_in_iff_sublist sublist_def by blast
  have no: "nat (py_find s think_open) = length pre"
    by (simp add: assms(2))
  have nc: "nat (py_find s think_close) + 8 = length (pre @ think_open @ mid @ think_close)"
    using assms(3) by (simp add: think_close_def)
  have "take (length pre) s = pre"
    by (simp add: assms(1))
  moreover have "drop (length (pre @ think_open @ mid @ think_close)) s = post"
    unfolding assms(1) by (metis append.assoc append_eq_conv_conj)
  ultimately show ?thesis
    unfolding strip_thinking_both [OF o c] no nc by simp
qed

lemma strip_thinking_fixed_point:
  assumes "py_in think_open s" "py_in think_close s"
  shows "strip_thinking s = s \<longleftrightarrow> py_find s think_open = py_find s think_close + 8"
proof -
  let ?o = "nat (py_find s think_open)" and ?c = "nat (py_find s think_close)"
  from py_find_bounds [OF assms(1)]
  have o: "0 \<le> py_find s think_open" "?o + 7 \<le> length s" by (simp_all add: think_open_def, linarith)
  from py_find_bounds [OF assms(2)]
  have c: "0 \<le> py_find s think_close" "?c + 8 \<le> length s" by (simp_all add: think_close_def, linarith)
  have eq: "strip_thinking s = take ?o s @ drop (?c + 8) s" by (rule strip_thinking_both [OF assms])
  show ?thesis
  proof
    assume "strip_thinking s = s"
    then have "length (take ?o s @ drop (?c + 8) s) = length s" using eq by simp
    with o c have "?o = ?c + 8" by simp
    with o c show "py_find s think_open = py_find s think_close + 8" by linarith
  next
    assume "py_find s think_open = py_find s think_close + 8"
    with o c have "?o = ?c + 8" by linarith
    then show "strip_thinking s = s" using eq by simp
  qed
qed

section \<open>Facts about the loop\<close>

lemma final_response_returns [simp]: "\<not> isl (fst (final_response env q trace hist w))"
  by (simp add: final_response_def split: prod.splits)

lemma on_exception_returns [simp]: "\<not> isl (fst (on_exception env q trace hist w e))"
  by (simp add: on_exception_def split: prod.splits)

lemma on_parse_exception_returns [simp]:
  "\<not> isl (fst (on_parse_exception env q trace hist w e))"
  by (simp add: on_parse_exception_def split: py_exn.splits)

lemma after_recursive_call_returns [simp]:
  "\<not> isl (fst (after_recursive_call env q out))"
  by (cases out) (simp add: after_recursive_call_def split: sum.splits)

lemma final_response_no_exn: "final_response env q trace hist w = (r, rest) \<Longrightarrow> \<not> isl r"
  using final_response_returns [of env q trace hist w] by simp

lemma on_exception_no_exn: "on_exception env q trace hist w e = (r, rest) \<Longrightarrow> \<not> isl r"
  using on_exception_returns [of env q trace hist w e] by simp

lemma on_parse_exception_no_exn:
  "on_parse_exception env q trace hist w e = (r, rest) \<Longrightarrow> \<not> isl r"
  using on_parse_exception_returns [of env q trace hist w e] by simp

lemma after_recursive_call_no_exn: "after_recursive_call env q out = (r, rest) \<Longrightarrow> \<not> isl r"
  using after_recursive_call_returns [of env q out] by simp

lemma execute_never_raises:
  assumes "execute_tools_sequentially env q td trace hist w = Some out"
  shows "\<not> isl (fst out)"
  apply (rule execute_tools_sequentially.raw_induct
        [where P = "\<lambda>_ _ _ _ _ _ out. \<not> isl (fst out)", OF _ assms])
  apply (auto simp: Let_def bind_eq_Some_conv
           split: prod.splits sum.splits option.splits if_splits
           dest: final_response_no_exn on_exception_no_exn on_parse_exception_no_exn
                 after_recursive_call_no_exn)
  apply (metis isl_def sum.exhaust)
  done

lemma bind_execute:
  "Option.bind (execute_tools_sequentially env q td trace hist w)
     (\<lambda>(r, tr, h, w'). case r of Inr s \<Rightarrow> Some (Inr s, tr, h, w') | Inl e \<Rightarrow> g e tr h w')
   = execute_tools_sequentially env q td trace hist w"
proof (cases "execute_tools_sequentially env q td trace hist w")
  case None
  then show ?thesis by simp
next
  case (Some out)
  with execute_never_raises [OF Some] show ?thesis
    by (cases out) (auto split: sum.splits)
qed

lemma bind_execute_after:
  "Option.bind (execute_tools_sequentially env q td trace hist w)
     (\<lambda>out. Some (after_recursive_call env q out))
   = execute_tools_sequentially env q td trace hist w"
proof (cases "execute_tools_sequentially env q td trace hist w")
  case None
  then show ?thesis by simp
next
  case (Some out)
  with execute_never_raises [OF Some] show ?thesis
    by (cases out) (auto simp: after_recursive_call_def split: sum.splits)
qed

lemmas execute_unfold =
  execute_tools_sequentially.simps [unfolded bind_execute bind_execute_after]


lemma first_tool_request_falsy: "\<not> truthy v \<Longrightarrow> first_tool_request v = Inr None"
  by (simp add: first_tool_request_def)

lemma first_tool_request_request:
  "requested_tool arr = Some request \<Longrightarrow> first_tool_request (JArr arr) = Inr (Some request)"
  by (cases arr; cases "hd arr")
     (auto simp: first_tool_request_def requested_tool_def split: list.splits json.splits)

lemma first_tool_request_raises:
  assumes "truthy v" and "\<And>arr. v = JArr arr \<Longrightarrow> requested_tool arr = None"
  shows "\<exists>m. first_tool_request v = Inl (Exception m)"
proof (cases v)
  case (JArr arr)
  with assms obtain x rest where arr: "arr = x # rest" and none: "requested_tool (x # rest) = None"
    by (cases arr) auto
  from none show ?thesis
    unfolding JArr arr by (cases x) (simp_all add: first_tool_request_def requested_tool_def)
next
  case (JStr s)
  with assms(1) show ?thesis
    by (cases s) (simp_all add: first_tool_request_def)
qed (use assms(1) in \<open>simp_all add: first_tool_request_def\<close>)

lemma first_tool_request_Some:
  "first_tool_request v = Inr (Some request) \<Longrightarrow> \<exists>arr. v = JArr arr \<and> requested_tool arr = Some request"
proof -
  assume a: "first_tool_request v = Inr (Some request)"
  have t: "truthy v" using a first_tool_request_falsy [of v] by auto
  show ?thesis
  proof (rule ccontr)
    assume n: "\<not> ?thesis"
    have "\<And>arr. v = JArr arr \<Longrightarrow> requested_tool arr = None"
    proof -
      fix arr assume v: "v = JArr arr"
      show "requested_tool arr = None"
      proof (cases "requested_tool arr")
        case (Some r)
        with first_tool_request_request [OF Some] a v n show ?thesis by auto
      qed simp
    qed
    from first_tool_request_raises [OF t this] a show False by auto
  qed
qed

lemma planned_array_Some:
  assumes "planned_array env q td trace w = Some (arr, w1)"
  obtains reply where "ollama_chat env w (PlanningPrompt td q trace) = (Inr reply, w1)"
    and "strip_thinking (py_strip reply) \<noteq> []"
    and "json_loads env (strip_thinking (py_strip reply)) = Inr (JArr arr)"
  using assms
  by (auto simp: planned_array_def Let_def split: prod.splits sum.splits if_splits json.splits)

lemma execute_tool_round:
  assumes "planned_array env q td trace w = Some (arr, w1)"
    and "requested_tool arr = Some (name, params)"
    and "call_tool env w1 name params = (outcome, w2)"
  shows "execute_tools_sequentially env q td trace hist w =
           execute_tools_sequentially env q td (trace @ [trace_entry (name, params) outcome]) hist w2"
proof -
  from assms(1) obtain reply where
    chat: "ollama_chat env w (PlanningPrompt td q trace) = (Inr reply, w1)" and
    nonempty: "strip_thinking (py_strip reply) \<noteq> []" and
    loads: "json_loads env (strip_thinking (py_strip reply)) = Inr (JArr arr)"
    by (rule planned_array_Some)
  note request = first_tool_request_request [OF assms(2)]
  show ?thesis
    by (subst execute_unfold)
       (simp add: chat nonempty loads request assms(3) trace_entry_def split: sum.splits)
qed

lemma final_response_trace: "fst (snd (final_response env q trace hist w)) = trace"
  by (simp add: final_response_def split: prod.splits)

lemma on_exception_trace: "fst (snd (on_exception env q trace hist w e)) = trace"
  by (simp add: on_exception_def split: prod.splits)

lemma execute_last_round_cases:
  assumes "\<not> requests_tool env q td trace w"
  shows "(\<exists>w1. execute_tools_sequentially env q td trace hist w =
                 Some (final_response env q trace hist w1)) \<or>
         (\<exists>w1 e. execute_tools_sequentially env q td trace hist w =
                 Some (on_exception env q trace hist w1 e))"
proof (cases "ollama_chat env w (PlanningPrompt td q trace)")
  case (Pair res w1)
  show ?thesis
  proof (cases res)
    case (Inl e)
    with Pair show ?thesis by (subst (2) execute_unfold) auto
  next
    case (Inr reply)
    show ?thesis
    proof (cases "strip_thinking (py_strip reply) = []")
      case True
      with Pair Inr show ?thesis by (subst execute_unfold) auto
    next
      case False
      show ?thesis
      proof (cases "json_loads env (strip_thinking (py_strip reply))")
        case (Inl e)
        with Pair Inr False show ?thesis
          by (subst execute_unfold, subst (2) execute_unfold)
             (auto simp: on_parse_exception_def split: py_exn.splits)
      next
        case v: (Inr v)
        show ?thesis
        proof (cases "first_tool_request v")
          case (Inl e)
          with Pair Inr False v show ?thesis
            by (subst execute_unfold, subst (2) execute_unfold)
               (auto simp: on_parse_exception_def split: py_exn.splits)
        next
          case r: (Inr r)
          show ?thesis
          proof (cases r)
            case None
            with Pair Inr False v r show ?thesis by (subst execute_unfold) auto
          next
            case (Some request)
            with r first_tool_request_Some obtain arr where
              "v = JArr arr" "requested_tool arr = Some request" by blast
            with assms Pair Inr False v have False
              by (simp add: requests_tool_def planned_array_def)
            then show ?thesis ..
          qed
        qed
      qed
    qed
  qed
qed

lemma execute_last_round:
  assumes "\<not> requests_tool env q td trace w"
  shows "\<exists>final hist' w'. execute_tools_sequentially env q td trace hist w =
           Some (Inr final, trace, hist', w')"
proof -
  have "\<exists>final hist' w'. out = (Inr final, trace, hist', w')"
    if "\<not> isl (fst out)" "fst (snd out) = trace" for out :: "'a outcome"
    using that by (cases out; cases "fst out") auto
  with execute_last_round_cases [OF assms, of hist]
    final_response_returns on_exception_returns final_response_trace on_exception_trace
  show ?thesis by metis
qed

text \<open>What a scripted round contributes to the trace.\<close>

lemma tool_rounds_step:
  assumes "tool_rounds env q td ((arr, outcome) # script) trace w = Some (tr, w')"
  obtains name params w1 w2 where
    "planned_array env q td trace w = Some (arr, w1)"
    "requested_tool arr = Some (name, params)"
    "call_tool env w1 name params = (outcome, w2)"
    "tool_rounds env q td script (trace @ [trace_entry (name, params) outcome]) w2 = Some (tr, w')"
  using assms by (auto split: option.splits prod.splits if_splits)

lemma execute_after_rounds:
  "tool_rounds env q td script trace w = Some (tr, w') \<Longrightarrow>
     execute_tools_sequentially env q td trace hist w =
       execute_tools_sequentially env q td tr hist w'"
proof (induction script arbitrary: trace w)
  case Nil
  then show ?case by simp
next
  case (Cons step script)
  obtain arr outcome where step: "step = (arr, outcome)" by (cases step)
  from Cons.prems [unfolded step] obtain name params w1 w2 where
    plan: "planned_array env q td trace w = Some (arr, w1)" and
    request: "requested_tool arr = Some (name, params)" and
    call: "call_tool env w1 name params = (outcome, w2)" and
    rest: "tool_rounds env q td script (trace @ [trace_entry (name, params) outcome]) w2 = Some (tr, w')"
    by (rule tool_rounds_step)
  from execute_tool_round [OF plan request call] Cons.IH [OF rest]
  show ?case by simp
qed

lemma tool_rounds_trace:
  "tool_rounds env q td script trace w = Some (tr, w') \<Longrightarrow>
     \<exists>new. tr = trace @ new \<and>
       list_all2
         (\<lambda>(arr, outcome) entry.
            requested_tool arr = Some (tool_name entry, parameters entry) \<and>
            entry = trace_entry (tool_name entry, parameters entry) outcome)
         script new"
proof (induction script arbitrary: trace w)
  case Nil
  then show ?case by simp
next
  case (Cons step script)
  obtain arr outcome where step: "step = (arr, outcome)" by (cases step)
  from Cons.prems [unfolded step] obtain name params w1 w2 where
    request: "requested_tool arr = Some (name, params)" and
    rest: "tool_rounds env q td script (trace @ [trace_entry (name, params) outcome]) w2 = Some (tr, w')"
    by (rule tool_rounds_step)
  from Cons.IH [OF rest] obtain new where
    tr: "tr = (trace @ [trace_entry (name, params) outcome]) @ new" and
    all: "list_all2
         (\<lambda>(arr, outcome) entry.
            requested_tool arr = Some (tool_name entry, parameters entry) \<and>
            entry = trace_entry (tool_name entry, parameters entry) outcome)
         script new"
    by blast
  have "tr = trace @ (trace_entry (name, params) outcome # new)" using tr by simp
  moreover have "list_all2
         (\<lambda>(arr, outcome) entry.
            requested_tool arr = Some (tool_name entry, parameters entry) \<and>
            entry = trace_entry (tool_name entry, parameters entry) outcome)
         (step # script) (trace_entry (name, params) outcome # new)"
    using all request by (simp add: step trace_entry_def)
  ultimately show ?case by blast
qed

lemma tool_rounds_entries:
  assumes "tool_rounds env q td script [] w = Some (tr, w')"
  shows "length tr = length script"
    and "k < length script \<Longrightarrow>
           requested_tool (fst (script ! k)) = Some (tool_name (tr ! k), parameters (tr ! k))"
    and "k < length script \<Longrightarrow>
           result (tr ! k) =
             (case snd (script ! k) of
                Inr tool_result \<Rightarrow> tool_output tool_result
              | Inl e \<Rightarrow> ''Error: '' @ str_exn e)"
proof -
  from tool_rounds_trace [OF assms] have all: "list_all2
         (\<lambda>(arr, outcome) entry.
            requested_tool arr = Some (tool_name entry, parameters entry) \<and>
            entry = trace_entry (tool_name entry, parameters entry) outcome)
         script tr"
    by simp
  then show len: "length tr = length script" by (simp add: list_all2_lengthD)
  {
    assume k: "k < length script"
    obtain arr outcome where sk: "script ! k = (arr, outcome)" by (cases "script ! k")
    from list_all2_nthD [OF all k] sk
    have r: "requested_tool arr = Some (tool_name (tr ! k), parameters (tr ! k))"
      and e: "tr ! k = trace_entry (tool_name (tr ! k), parameters (tr ! k)) outcome"
      by simp_all
    from r sk show "requested_tool (fst (script ! k)) = Some (tool_name (tr ! k), parameters (tr ! k))"
      by simp
    have "result (tr ! k) = result (trace_entry (tool_name (tr ! k), parameters (tr ! k)) outcome)"
      using e by simp
    then show "result (tr ! k) =
             (case snd (script ! k) of
                Inr tool_result \<Rightarrow> tool_output tool_result
              | Inl e \<Rightarrow> ''Error: '' @ str_exn e)"
      by (simp add: sk trace_entry_def)
  }
qed




lemma tool_rounds_requests:
  "tool_rounds env q td (step # script) trace w = Some s \<Longrightarrow> requests_tool env q td trace w"
  by (cases step) (auto simp: requests_tool_def split: option.splits prod.splits if_splits)





text \<open>Every joined string is a substring of the join.\<close>

lemma sublist_str_join: "x \<in> set xs \<Longrightarrow> sublist x (str_join sep xs)"
proof (induction sep xs rule: str_join.induct)
  case (1 sep)
  then show ?case by simp
next
  case (2 sep y)
  then show ?case by simp
next
  case (3 sep y z zs)
  show ?case
  proof (cases "x = y")
    case True
    then show ?thesis by (simp add: sublist_append_rightI)
  next
    case False
    with "3.prems" have "x \<in> set (z # zs)" by simp
    from "3.IH" [OF this] have "sublist x (str_join sep (z # zs))" .
    moreover have "sublist (str_join sep (z # zs)) ((y @ sep) @ str_join sep (z # zs))"
      by (rule sublist_append_leftI)
    ultimately have "sublist x ((y @ sep) @ str_join sep (z # zs))"
      by (rule sublist_order.order_trans)
    then show ?thesis by simp
  qed
qed

section \<open>The claims\<close>

subsection \<open>Thinking-tag stripper\<close>

text \<open>
  C5. The stripper is a total function that returns the text unchanged when a marker is
  absent (\<open>strip_thinking_unchanged\<close>) and removes the span when the first closing marker
  stands behind the first opening marker (\<open>strip_thinking_removes_span\<close>). It does not
  look for the first closing marker that follows the opening marker: \<^verbatim>\<open>find\<close> gives the
  first closing marker of the whole text. On a text whose first closing marker stands
  before the first opening marker, the span that follows is kept and the text between the
  two markers is written twice.
\<close>

theorem strip_thinking_stray_close:
  "strip_thinking ''</think>x<think>y</think>z'' = ''</think>xx<think>y</think>z''"
  by (simp add: strip_thinking_def think_open_def think_close_def slice_to_def slice_from_def)

text \<open>
  C9, as stated: stripping the output of the stripper changes nothing. The stripper removes
  one span per application, so a text with two spans is changed by the second application.
\<close>

theorem strip_thinking_twice_counterexample:
  "strip_thinking (strip_thinking ''<think>a</think><think>b</think>c'') \<noteq>
     strip_thinking ''<think>a</think><think>b</think>c''"
  by (simp add: strip_thinking_def think_open_def think_close_def slice_to_def slice_from_def)

text \<open>
  C9, amended: the stripper removes one span per application. The second application is a
  no-op whenever the output of the first no longer holds both markers; when that output
  still holds a span (its first opening marker, then its first closing marker), the second
  application removes that span as well.
\<close>

theorem strip_thinking_twice:
  "(\<not> (py_in think_open (strip_thinking t) \<and> py_in think_close (strip_thinking t)) \<longrightarrow>
      strip_thinking (strip_thinking t) = strip_thinking t) \<and>
   (strip_thinking t = pre @ think_open @ mid @ think_close @ post \<and>
    py_find (strip_thinking t) think_open = int (length pre) \<and>
    py_find (strip_thinking t) think_close = int (length (pre @ think_open @ mid)) \<longrightarrow>
      strip_thinking (strip_thinking t) = pre @ post)"
  using strip_thinking_unchanged [of "strip_thinking t"]
    strip_thinking_removes_span [of "strip_thinking t" pre mid post]
  by blast

theorem strip_thinking_twice_witness:
  "strip_thinking (strip_thinking ''<think>internal</think>final answer'') =
     strip_thinking ''<think>internal</think>final answer'' \<and>
   strip_thinking ''<think>internal</think>final answer'' = ''final answer'' \<and>
   strip_thinking ''<think>a</think><think>b</think>c'' = ''<think>b</think>c'' \<and>
   strip_thinking (strip_thinking ''<think>a</think><think>b</think>c'') = ''c''"
  (is "?A \<and> ?B \<and> ?C \<and> ?D")
proof (intro conjI)
  show out: ?B
    by (simp add: strip_thinking_def think_open_def think_close_def slice_to_def slice_from_def)
  have "\<not> py_in think_open ''final answer''"
    by (simp add: think_open_def)
  with strip_thinking_twice [of "''<think>internal</think>final answer''", THEN conjunct1] out
  show ?A by simp
  show two: ?C
    by (simp add: strip_thinking_def think_open_def think_close_def slice_to_def slice_from_def)
  let ?t = "''<think>a</think><think>b</think>c''"
  have span: "strip_thinking ?t = [] @ think_open @ ''b'' @ think_close @ ''c''"
    by (simp add: strip_thinking_def think_open_def think_close_def slice_to_def slice_from_def)
  have at_open: "py_find (strip_thinking ?t) think_open = int (length ([] :: string))"
    by (simp add: two think_open_def)
  have at_close: "py_find (strip_thinking ?t) think_close =
      int (length (([] :: string) @ think_open @ ''b''))"
    by (simp add: two think_open_def think_close_def)
  from strip_thinking_twice [of ?t "[]" "''b''" "''c''", THEN conjunct2] span at_open at_close
  have "strip_thinking (strip_thinking ?t) = [] @ ''c''"
    by blast
  then show ?D by simp
qed

subsection \<open>Termination of the executor loop\<close>





subsection \<open>The execution trace\<close>

text \<open>Evaluation of the scripted mock on the scenario of the specification.\<close>

lemma apple_first_plan:
  \<open>planned_array (scripted_env apple_plans outcomes answer) q td trace 0 =
     Some (ticker_request, 0)\<close>
  by (simp add: planned_array_def scripted_env_def apple_plans_def ticker_request_def price_request_def
        demo_loads_def strip_thinking_def py_strip_def is_space_def think_open_def)

lemma apple_second_plan:
  \<open>planned_array (scripted_env apple_plans outcomes answer) q td trace (Suc 0) =
     Some (price_request, Suc 0)\<close>
  by (simp add: planned_array_def scripted_env_def apple_plans_def ticker_request_def price_request_def
        demo_loads_def strip_thinking_def py_strip_def is_space_def think_open_def)

lemma apple_last_plan:
  \<open>planned_array (scripted_env apple_plans outcomes answer) q td trace (Suc (Suc 0)) =
     Some ([], Suc (Suc 0))\<close>
  by (simp add: planned_array_def scripted_env_def apple_plans_def
        demo_loads_def strip_thinking_def py_strip_def is_space_def think_open_def)

lemma apple_rounds:
  "tool_rounds (scripted_env apple_plans [first, second] answer) q td
     [(ticker_request, first), (price_request, second)] [] 0 =
   Some ([trace_entry (JStr ''get_ticker_from_name'', JObj [(''name'', JStr ''Apple Inc'')]) first,
          trace_entry (JStr ''get_stock_price'', JObj [(''ticker'', JStr ''AAPL'')]) second],
         Suc (Suc 0))"
proof -
  have calls:
    "call_tool (scripted_env apple_plans [first, second] answer) 0 name params = (first, Suc 0)"
    "call_tool (scripted_env apple_plans [first, second] answer) (Suc 0) name params =
       (second, Suc (Suc 0))" for name params
    by (simp_all add: scripted_env_def)
  have requests:
    "requested_tool (ticker_request) =
       Some (JStr ''get_ticker_from_name'', JObj [(''name'', JStr ''Apple Inc'')])"
    "requested_tool (price_request) =
       Some (JStr ''get_stock_price'', JObj [(''ticker'', JStr ''AAPL'')])"
    by (simp_all add: requested_tool_def ticker_request_def price_request_def)
  show ?thesis
    by (simp add: apple_first_plan apple_second_plan requests calls)
qed

lemma apple_stops:
  "\<not> requests_tool (scripted_env apple_plans outcomes answer) q td trace (Suc (Suc 0))"
  by (simp add: requests_tool_def apple_last_plan requested_tool_def)





text \<open>
  C8. In a round whose dispatch returns, the result recorded in the trace is the text of
  the first content part of the returned sequence, and \<^verbatim>\<open>No result\<close> when the sequence is
  empty.
\<close>

theorem tool_result_text:
  "(planned_array env q td trace w = Some (arr, w1) \<and>
    requested_tool arr = Some (name, params) \<and>
    call_tool env w1 name params = (Inr tool_result, w2) \<longrightarrow>
      execute_tools_sequentially env q td trace hist w =
        execute_tools_sequentially env q td
          (trace @ [\<lparr>tool_name = name, parameters = params,
                     result = (case tool_result of
                                 [] \<Rightarrow> ''No result''
                               | part # parts \<Rightarrow> text_of part)\<rparr>]) hist w2) \<and>
   (tool_rounds env q td script [] w0 = Some (tr, w') \<and> \<not> requests_tool env q td tr w' \<longrightarrow>
      (\<exists>final hist' w''.
         execute_tools_sequentially env q td [] hist w0 = Some (Inr final, tr, hist', w'')) \<and>
      (\<forall>k<length script. \<forall>returned. snd (script ! k) = Inr returned \<longrightarrow>
         result (tr ! k) = (case returned of
                              [] \<Rightarrow> ''No result''
                            | part # parts \<Rightarrow> text_of part)))"
proof (intro conjI impI)
  assume a: "planned_array env q td trace w = Some (arr, w1) \<and>
    requested_tool arr = Some (name, params) \<and>
    call_tool env w1 name params = (Inr tool_result, w2)"
  then have plan: "planned_array env q td trace w = Some (arr, w1)"
    and request: "requested_tool arr = Some (name, params)"
    and call: "call_tool env w1 name params = (Inr tool_result, w2)" by simp_all
  have "execute_tools_sequentially env q td trace hist w =
      execute_tools_sequentially env q td
        (trace @ [trace_entry (name, params) (Inr tool_result)]) hist w2"
    by (rule execute_tool_round [OF plan request call])
  then show "execute_tools_sequentially env q td trace hist w =
        execute_tools_sequentially env q td
          (trace @ [\<lparr>tool_name = name, parameters = params,
                     result = (case tool_result of
                                 [] \<Rightarrow> ''No result''
                               | part # parts \<Rightarrow> text_of part)\<rparr>]) hist w2"
    by (simp add: trace_entry_def tool_output_def)
next
  assume b: "tool_rounds env q td script [] w0 = Some (tr, w') \<and> \<not> requests_tool env q td tr w'"
  then have rounds: "tool_rounds env q td script [] w0 = Some (tr, w')"
    and stop: "\<not> requests_tool env q td tr w'" by simp_all
  from execute_last_round [OF stop, of hist] execute_after_rounds [OF rounds, of hist]
  show "\<exists>final hist' w''.
         execute_tools_sequentially env q td [] hist w0 = Some (Inr final, tr, hist', w'')"
    by simp
  show "\<forall>k<length script. \<forall>returned. snd (script ! k) = Inr returned \<longrightarrow>
         result (tr ! k) = (case returned of
                              [] \<Rightarrow> ''No result''
                            | part # parts \<Rightarrow> text_of part)"
    using tool_rounds_entries(3) [OF rounds] by (simp add: tool_output_def)
qed

theorem tool_result_text_witness:
  "execute_tools_sequentially
     (scripted_env apple_plans [Inr [TextContent ''AAPL'', TextContent ''Apple Inc.''], Inr []]
        (Inr ''No price was found for AAPL''))
     apple_query '''' [] [] 0 =
   execute_tools_sequentially
     (scripted_env apple_plans [Inr [TextContent ''AAPL'', TextContent ''Apple Inc.''], Inr []]
        (Inr ''No price was found for AAPL''))
     apple_query ''''
     [\<lparr>tool_name = JStr ''get_ticker_from_name'',
       parameters = JObj [(''name'', JStr ''Apple Inc'')], result = ''AAPL''\<rparr>] [] (Suc 0) \<and>
   (\<exists>final hist' w''.
      execute_tools_sequentially
        (scripted_env apple_plans [Inr [TextContent ''AAPL'', TextContent ''Apple Inc.''], Inr []]
           (Inr ''No price was found for AAPL''))
        apple_query '''' [] [] 0 =
      Some (Inr final,
            [\<lparr>tool_name = JStr ''get_ticker_from_name'',
              parameters = JObj [(''name'', JStr ''Apple Inc'')], result = ''AAPL''\<rparr>,
             \<lparr>tool_name = JStr ''get_stock_price'',
              parameters = JObj [(''ticker'', JStr ''AAPL'')], result = ''No result''\<rparr>],
            hist', w''))"
  (is "?A \<and> ?B")
proof -
  let ?env = "scripted_env apple_plans
        [Inr [TextContent ''AAPL'', TextContent ''Apple Inc.''], Inr []]
        (Inr ''No price was found for AAPL'')"
  let ?first = "trace_entry (JStr ''get_ticker_from_name'', JObj [(''name'', JStr ''Apple Inc'')])
        (Inr [TextContent ''AAPL'', TextContent ''Apple Inc.''])"
  let ?second = "trace_entry (JStr ''get_stock_price'', JObj [(''ticker'', JStr ''AAPL'')])
        (Inr [])"
  have plan: "planned_array ?env apple_query '''' [] 0 = Some (ticker_request, 0)"
    by (rule apple_first_plan)
  have request: "requested_tool ticker_request =
      Some (JStr ''get_ticker_from_name'', JObj [(''name'', JStr ''Apple Inc'')])"
    by (simp add: requested_tool_def ticker_request_def)
  have call: "call_tool ?env 0 (JStr ''get_ticker_from_name'') (JObj [(''name'', JStr ''Apple Inc'')]) =
      (Inr [TextContent ''AAPL'', TextContent ''Apple Inc.''], Suc 0)"
    by (simp add: scripted_env_def)
  have rounds: "tool_rounds ?env apple_query ''''
      [(ticker_request, Inr [TextContent ''AAPL'', TextContent ''Apple Inc.'']),
       (price_request, Inr [])] [] 0 =
      Some ([?first, ?second], Suc (Suc 0))"
    by (rule apple_rounds)
  have stop: "\<not> requests_tool ?env apple_query '''' [?first, ?second] (Suc (Suc 0))"
    by (rule apple_stops)
  from tool_result_text
    [of ?env apple_query "''''" "[]" 0 ticker_request 0 "JStr ''get_ticker_from_name''"
        "JObj [(''name'', JStr ''Apple Inc'')]" "[TextContent ''AAPL'', TextContent ''Apple Inc.'']"
        "Suc 0" "[]"
        "[(ticker_request, Inr [TextContent ''AAPL'', TextContent ''Apple Inc.'']),
          (price_request, Inr [])]"
        0 "[?first, ?second]" "Suc (Suc 0)"]
    plan request call rounds stop
  have "execute_tools_sequentially ?env apple_query '''' [] [] 0 =
      execute_tools_sequentially ?env apple_query ''''
        ([] @ [\<lparr>tool_name = JStr ''get_ticker_from_name'',
                 parameters = JObj [(''name'', JStr ''Apple Inc'')],
                 result = (case [TextContent ''AAPL'', TextContent ''Apple Inc.''] of
                             [] \<Rightarrow> ''No result'' | part # parts \<Rightarrow> text_of part)\<rparr>])
        [] (Suc 0) \<and>
    (\<exists>final hist' w''. execute_tools_sequentially ?env apple_query '''' [] [] 0 =
       Some (Inr final, [?first, ?second], hist', w''))"
    by blast
  then have first: "execute_tools_sequentially ?env apple_query '''' [] [] 0 =
      execute_tools_sequentially ?env apple_query ''''
        ([] @ [\<lparr>tool_name = JStr ''get_ticker_from_name'',
                 parameters = JObj [(''name'', JStr ''Apple Inc'')],
                 result = (case [TextContent ''AAPL'', TextContent ''Apple Inc.''] of
                             [] \<Rightarrow> ''No result'' | part # parts \<Rightarrow> text_of part)\<rparr>])
        [] (Suc 0)"
    and whole: "(\<exists>final hist' w''. execute_tools_sequentially ?env apple_query '''' [] [] 0 =
       Some (Inr final, [?first, ?second], hist', w''))"
    by blast+
  show ?thesis
  proof (rule conjI)
    from first show ?A
      by (simp add: trace_entry_def tool_output_def)
    from whole show ?B
      by (simp add: trace_entry_def tool_output_def)
  qed
qed





subsection \<open>Planning failures\<close>

lemma execute_reply_unfold:
  assumes "ollama_chat env w (PlanningPrompt td q trace) = (Inr reply, w1)"
  shows "execute_tools_sequentially env q td trace hist w =
     (if strip_thinking (py_strip reply) \<noteq> [] then
        (case json_loads env (strip_thinking (py_strip reply)) of
           Inl e \<Rightarrow> Some (on_parse_exception env q trace hist w1 e)
         | Inr tool_requests \<Rightarrow>
             (case first_tool_request tool_requests of
                Inl e \<Rightarrow> Some (on_parse_exception env q trace hist w1 e)
              | Inr None \<Rightarrow> Some (final_response env q trace hist w1)
              | Inr (Some (name, params)) \<Rightarrow>
                  (case call_tool env w1 name params of
                     (outcome, w2) \<Rightarrow>
                       execute_tools_sequentially env q td
                         (trace @ [trace_entry (name, params) outcome]) hist w2)))
      else Some (final_response env q trace hist w1))"
  by (subst execute_unfold)
     (simp add: assms trace_entry_def split: sum.splits option.splits prod.splits)

text \<open>
  C4, as stated: after a reply that is valid JSON and not an array, an empty trace leads to
  the direct response. Against a planner whose first reply is a JSON object the turn
  returns the error text of the outermost handler instead; the model is not asked for a
  direct response and nothing is appended to the history.
\<close>

theorem object_reply_counterexample:
  "execute_tools_sequentially (scripted_env object_plans [] (Inr ''Hello!'')) ''hello'' ''''
     [] [\<lparr>role = ''user'', content = ''hello''\<rparr>] 0 =
     Some (Inr ''Error in query processing: 0'', [],
           [\<lparr>role = ''user'', content = ''hello''\<rparr>], 0) \<and>
   final_response (scripted_env object_plans [] (Inr ''Hello!'')) ''hello''
     [] [\<lparr>role = ''user'', content = ''hello''\<rparr>] 0 =
     (Inr ''Hello!'', [],
      [\<lparr>role = ''user'', content = ''hello''\<rparr>, \<lparr>role = ''assistant'', content = ''Hello!''\<rparr>], 0)"
proof (rule conjI)
  have chat: \<open>ollama_chat (scripted_env object_plans [] (Inr ''Hello!'')) 0
      (PlanningPrompt '''' ''hello'' []) = (Inr ''{"done": true}'', 0)\<close>
    by (simp add: scripted_env_def object_plans_def)
  show "execute_tools_sequentially (scripted_env object_plans [] (Inr ''Hello!'')) ''hello'' ''''
     [] [\<lparr>role = ''user'', content = ''hello''\<rparr>] 0 =
     Some (Inr ''Error in query processing: 0'', [],
           [\<lparr>role = ''user'', content = ''hello''\<rparr>], 0)"
    by (subst execute_reply_unfold [OF chat])
       (simp add: scripted_env_def demo_loads_def strip_thinking_def py_strip_def is_space_def
          think_open_def first_tool_request_def on_parse_exception_def on_exception_def)
  show "final_response (scripted_env object_plans [] (Inr ''Hello!'')) ''hello''
     [] [\<lparr>role = ''user'', content = ''hello''\<rparr>] 0 =
     (Inr ''Hello!'', [],
      [\<lparr>role = ''user'', content = ''hello''\<rparr>, \<lparr>role = ''assistant'', content = ''Hello!''\<rparr>], 0)"
    by (simp add: final_response_def generate_direct_response_def scripted_env_def
          py_strip_def is_space_def Let_def)
qed

text \<open>
  C4, amended. When the planning text is empty after stripping, is not valid JSON, or
  decodes to a falsy value, the turn ends by synthesis from a non-empty trace and by the
  direct response from an empty one. When \<^verbatim>\<open>json.loads\<close> raises another exception, or the
  decoded value is truthy and is not an array that starts with an object (so that reading
  the request raises), the turn ends by synthesis from a non-empty trace, and from an empty
  one with the text \<^verbatim>\<open>Error in query processing: \<close> followed by the message, the history left
  as it is. In no case is the planner asked again, and nothing is raised.
\<close>

theorem planning_failure_fallback:
  assumes "ollama_chat env w (PlanningPrompt td q trace) = (Inr reply, w1)"
    and "planning_text = strip_thinking (py_strip reply)"
  shows
    "((planning_text = [] \<or>
       (\<exists>m. json_loads env planning_text = Inl (JSONDecodeError m)) \<or>
       (\<exists>v. json_loads env planning_text = Inr v \<and> \<not> truthy v)) \<longrightarrow>
        execute_tools_sequentially env q td trace hist w =
          Some (if trace \<noteq> [] then
                  (case generate_comprehensive_response env w1 q trace of
                     (final, w2) \<Rightarrow>
                       (Inr final, trace,
                        hist @ [\<lparr>role = ''assistant'', content = final\<rparr>], w2))
                else
                  (case generate_direct_response env w1 hist q of
                     (direct, hist', w2) \<Rightarrow> (Inr direct, [], hist', w2)))) \<and>
     (planning_text \<noteq> [] \<and>
      (json_loads env planning_text = Inl (Exception m) \<or>
       (\<exists>v. json_loads env planning_text = Inr v \<and>
            first_tool_request v = Inl (Exception m))) \<longrightarrow>
        execute_tools_sequentially env q td trace hist w =
          Some (if trace \<noteq> [] then
                  (case generate_comprehensive_response env w1 q trace of
                     (final, w2) \<Rightarrow>
                       (Inr final, trace,
                        hist @ [\<lparr>role = ''assistant'', content = final\<rparr>], w2))
                else (Inr (''Error in query processing: '' @ m), [], hist, w1))) \<and>
     (\<forall>v. truthy v \<and> (\<forall>kvs rest. v \<noteq> JArr (JObj kvs # rest)) \<longrightarrow>
          (\<exists>m'. first_tool_request v = Inl (Exception m')))"
proof (intro conjI impI allI)
  note unfold = execute_reply_unfold [OF assms(1), of hist, folded assms(2)]
  have final: "final_response env q trace hist w1 =
      (if trace \<noteq> [] then
         (case generate_comprehensive_response env w1 q trace of
            (final, w2) \<Rightarrow>
              (Inr final, trace, hist @ [\<lparr>role = ''assistant'', content = final\<rparr>], w2))
       else
         (case generate_direct_response env w1 hist q of
            (direct, hist', w2) \<Rightarrow> (Inr direct, [], hist', w2)))"
    by (simp add: final_response_def split: prod.splits)
  have other: "on_exception env q trace hist w1 (Exception m) =
      (if trace \<noteq> [] then
         (case generate_comprehensive_response env w1 q trace of
            (final, w2) \<Rightarrow>
              (Inr final, trace, hist @ [\<lparr>role = ''assistant'', content = final\<rparr>], w2))
       else (Inr (''Error in query processing: '' @ m), [], hist, w1))"
    by (simp add: on_exception_def)
  {
    assume "planning_text = [] \<or>
       (\<exists>m. json_loads env planning_text = Inl (JSONDecodeError m)) \<or>
       (\<exists>v. json_loads env planning_text = Inr v \<and> \<not> truthy v)"
    then have "execute_tools_sequentially env q td trace hist w =
        Some (final_response env q trace hist w1)"
      unfolding unfold
      by (auto simp: on_parse_exception_def first_tool_request_falsy)
    then show "execute_tools_sequentially env q td trace hist w =
          Some (if trace \<noteq> [] then
                  (case generate_comprehensive_response env w1 q trace of
                     (final, w2) \<Rightarrow>
                       (Inr final, trace,
                        hist @ [\<lparr>role = ''assistant'', content = final\<rparr>], w2))
                else
                  (case generate_direct_response env w1 hist q of
                     (direct, hist', w2) \<Rightarrow> (Inr direct, [], hist', w2)))"
      by (simp only: final)
  }
  {
    assume "planning_text \<noteq> [] \<and>
      (json_loads env planning_text = Inl (Exception m) \<or>
       (\<exists>v. json_loads env planning_text = Inr v \<and>
            first_tool_request v = Inl (Exception m)))"
    then have "execute_tools_sequentially env q td trace hist w =
        Some (on_exception env q trace hist w1 (Exception m))"
      unfolding unfold
      by (auto simp: on_parse_exception_def)
    then show "execute_tools_sequentially env q td trace hist w =
          Some (if trace \<noteq> [] then
                  (case generate_comprehensive_response env w1 q trace of
                     (final, w2) \<Rightarrow>
                       (Inr final, trace,
                        hist @ [\<lparr>role = ''assistant'', content = final\<rparr>], w2))
                else (Inr (''Error in query processing: '' @ m), [], hist, w1))"
      by (simp only: other)
  }
  {
    fix v
    assume "truthy v \<and> (\<forall>kvs rest. v \<noteq> JArr (JObj kvs # rest))"
    then have t: "truthy v" and n: "\<And>kvs rest. v \<noteq> JArr (JObj kvs # rest)" by simp_all
    have "requested_tool arr = None" if "v = JArr arr" for arr
      using n that by (auto simp: requested_tool_def split: list.splits json.splits)
    with t show "\<exists>m'. first_tool_request v = Inl (Exception m')"
      by (rule first_tool_request_raises)
  }
qed

theorem planning_failure_fallback_witness:
  "execute_tools_sequentially (scripted_env prose_plans [] (Inr ''AAPL trades at 190.5''))
     apple_query ''''
     [\<lparr>tool_name = JStr ''get_stock_price'', parameters = JObj [], result = ''190.5''\<rparr>]
     [\<lparr>role = ''user'', content = apple_query\<rparr>] 0 =
     Some (Inr ''AAPL trades at 190.5'',
           [\<lparr>tool_name = JStr ''get_stock_price'', parameters = JObj [], result = ''190.5''\<rparr>],
           [\<lparr>role = ''user'', content = apple_query\<rparr>,
            \<lparr>role = ''assistant'', content = ''AAPL trades at 190.5''\<rparr>], 0) \<and>
   execute_tools_sequentially (scripted_env prose_plans [] (Inr ''Hello!'')) ''hello'' ''''
     [] [\<lparr>role = ''user'', content = ''hello''\<rparr>] 0 =
     Some (Inr ''Hello!'', [],
           [\<lparr>role = ''user'', content = ''hello''\<rparr>,
            \<lparr>role = ''assistant'', content = ''Hello!''\<rparr>], 0) \<and>
   execute_tools_sequentially (scripted_env object_plans [] (Inr ''Hello!'')) ''hello'' ''''
     [] [] 0 =
     Some (Inr ''Error in query processing: 0'', [], [], 0)"
  (is "?A \<and> ?B \<and> ?C")
proof (intro conjI)
  let ?prose = "''I have all the information I need.''"
  have strip: "strip_thinking (py_strip ?prose) = ?prose"
    by (simp add: strip_thinking_def py_strip_def is_space_def think_open_def)
  have loads: "json_loads (scripted_env prose_plans outcomes answer) ?prose =
      Inl (JSONDecodeError ''Expecting value: line 1 column 1 (char 0)'')" for outcomes answer
    by (simp add: scripted_env_def demo_loads_def)
  have chat: "ollama_chat (scripted_env prose_plans outcomes answer) 0 (PlanningPrompt td q trace) =
      (Inr ?prose, 0)" for outcomes answer td q trace
    by (simp add: scripted_env_def prose_plans_def)
  from planning_failure_fallback [OF chat strip [symmetric], THEN conjunct1] loads
  have soft: "execute_tools_sequentially (scripted_env prose_plans outcomes answer) q td trace hist 0 =
          Some (if trace \<noteq> [] then
                  (case generate_comprehensive_response (scripted_env prose_plans outcomes answer)
                          0 q trace of
                     (final, w2) \<Rightarrow>
                       (Inr final, trace,
                        hist @ [\<lparr>role = ''assistant'', content = final\<rparr>], w2))
                else
                  (case generate_direct_response (scripted_env prose_plans outcomes answer)
                          0 hist q of
                     (direct, hist', w2) \<Rightarrow> (Inr direct, [], hist', w2)))"
    for outcomes answer q td trace hist
    by blast
  show ?A
    by (subst soft)
       (simp add: generate_comprehensive_response_def scripted_env_def py_strip_def is_space_def)
  show ?B
    by (subst soft)
       (simp add: generate_direct_response_def scripted_env_def py_strip_def is_space_def Let_def)
  have chat': \<open>ollama_chat (scripted_env object_plans [] (Inr ''Hello!'')) 0
      (PlanningPrompt '''' ''hello'' []) = (Inr ''{"done": true}'', 0)\<close>
    by (simp add: scripted_env_def object_plans_def)
  have strip': \<open>strip_thinking (py_strip ''{"done": true}'') = ''{"done": true}''\<close>
    by (simp add: strip_thinking_def py_strip_def is_space_def think_open_def)
  have raises: \<open>\<exists>v. json_loads (scripted_env object_plans [] (Inr ''Hello!'')) ''{"done": true}'' = Inr v \<and>
      first_tool_request v = Inl (Exception ''0'')\<close>
    by (simp add: scripted_env_def demo_loads_def first_tool_request_def)
  from planning_failure_fallback [OF chat' strip' [symmetric], THEN conjunct2, THEN conjunct1,
      of "''0''" "[]"] raises
  show ?C by simp
qed

subsection \<open>Synthesis fallback\<close>

text \<open>
  C6. When the model call of the synthesizer raises, the function returns the fixed prefix
  of line 284 followed by the results of all trace entries, joined by a space; the result
  of every trace entry is a substring of the returned text. Nothing is raised.
\<close>

theorem synthesis_fallback:
  assumes "ollama_chat env w (ComprehensivePrompt user_query tool_results) = (Inl e, w')"
  shows "generate_comprehensive_response env w user_query tool_results =
           (''Based on the collected information: '' @ str_join '' '' (map result tool_results),
            w') \<and>
         (\<forall>entry \<in> set tool_results.
            sublist (result entry)
              (fst (generate_comprehensive_response env w user_query tool_results)))"
proof
  show eq: "generate_comprehensive_response env w user_query tool_results =
           (''Based on the collected information: '' @ str_join '' '' (map result tool_results),
            w')"
    by (simp add: generate_comprehensive_response_def assms)
  show "\<forall>entry \<in> set tool_results.
            sublist (result entry)
              (fst (generate_comprehensive_response env w user_query tool_results))"
  proof
    fix entry assume "entry \<in> set tool_results"
    then have "result entry \<in> set (map result tool_results)" by simp
    then have "sublist (result entry) (str_join '' '' (map result tool_results))"
      by (rule sublist_str_join)
    moreover have "sublist (str_join '' '' (map result tool_results))
        (''Based on the collected information: '' @ str_join '' '' (map result tool_results))"
      by (rule sublist_append_leftI)
    ultimately have "sublist (result entry)
        (''Based on the collected information: '' @ str_join '' '' (map result tool_results))"
      by (rule sublist_order.order_trans)
    then show "sublist (result entry)
              (fst (generate_comprehensive_response env w user_query tool_results))"
      by (simp only: eq fst_conv)
  qed
qed

theorem synthesis_fallback_witness:
  "generate_comprehensive_response
     (scripted_env [] [] (Inl (Exception ''model not found''))) 0 apple_query
     [\<lparr>tool_name = JStr ''get_ticker_from_name'',
       parameters = JObj [(''name'', JStr ''Apple Inc'')], result = ''AAPL''\<rparr>,
      \<lparr>tool_name = JStr ''get_stock_price'',
       parameters = JObj [(''ticker'', JStr ''AAPL'')], result = ''190.5''\<rparr>] =
     (''Based on the collected information: AAPL 190.5'', 0) \<and>
   sublist ''190.5'' ''Based on the collected information: AAPL 190.5''"
proof -
  let ?env = "scripted_env [] [] (Inl (Exception ''model not found''))"
  let ?trace = "[\<lparr>tool_name = JStr ''get_ticker_from_name'',
       parameters = JObj [(''name'', JStr ''Apple Inc'')], result = ''AAPL''\<rparr>,
      \<lparr>tool_name = JStr ''get_stock_price'',
       parameters = JObj [(''ticker'', JStr ''AAPL'')], result = ''190.5''\<rparr>]"
  have chat: "ollama_chat ?env 0 (ComprehensivePrompt apple_query ?trace) =
      (Inl (Exception ''model not found''), 0)"
    by (simp add: scripted_env_def)
  note inst = synthesis_fallback [OF chat]
  from inst have "generate_comprehensive_response ?env 0 apple_query ?trace =
      (''Based on the collected information: '' @ str_join '' '' (map result ?trace), 0)"
    by (rule conjunct1)
  then have eq: "generate_comprehensive_response ?env 0 apple_query ?trace =
      (''Based on the collected information: AAPL 190.5'', 0)"
    by simp
  from inst have "\<forall>entry \<in> set ?trace.
      sublist (result entry) (fst (generate_comprehensive_response ?env 0 apple_query ?trace))"
    by (rule conjunct2)
  then have "sublist ''190.5'' (fst (generate_comprehensive_response ?env 0 apple_query ?trace))"
    by simp
  then have "sublist ''190.5'' ''Based on the collected information: AAPL 190.5''"
    by (simp only: eq fst_conv)
  with eq show ?thesis by (rule conjI)
qed

subsection \<open>The conversation history\<close>




end
